theory Spec2Isabelle
  imports Complex_Main "HOL-Library.Word" "HOL-Library.Sublist"
begin

section \<open>Data model of apps/web/server.ts\<close>

text \<open>
  A Node \<open>Buffer\<close> is a sequence of bytes. Strings that reach the server through the HTTP
  parser (request URL, header values) are sequences of 8-bit code units, so \<open>string\<close>
  represents them as they are; the rendered document is a \<open>string\<close> as well, and nothing
  below looks inside it.
\<close>

type_synonym buffer = "8 word list"

text \<open>The TypeScript union \<open>Buffer | string\<close> of a response body or of \<open>compressHtml\<close>'s data.\<close>

datatype payload = Str string | Buf buffer

text \<open>
  A JavaScript value as \<open>JSON.parse\<close> returns it, and \<open>undefined\<close>. Of a number only
  whether it is zero matters below.
\<close>

datatype jsvalue =
    JUndefined
  | JNull
  | JBool bool
  | JNum rat
  | JStr string
  | JArr "jsvalue list"
  | JObj "(string \<times> jsvalue) list"

text \<open>\<open>interface PageCacheEntry\<close>; the optional fields \<open>gzip?\<close> and \<open>br?\<close> are options.\<close>

record compressedVersions =
  gzip :: "buffer option"
  br :: "buffer option"
  uncompressed :: string

record PageCacheEntry =
  html :: string
  compressedVersions :: compressedVersions
  timestamp :: int
  headers :: "(string \<times> string) list"

subsection \<open>The JavaScript \<open>Map\<close>\<close>

text \<open>
  A \<open>Map\<close> keeps its entries in insertion order and holds every key at most once. It is an
  association list; \<open>set\<close> on a key that is present replaces the value in place, on a new
  key it appends. Maps built from the empty map by these operations have distinct keys.
\<close>

type_synonym ('k, 'v) jsmap = "('k \<times> 'v) list"

definition Map_get :: "('k, 'v) jsmap \<Rightarrow> 'k \<Rightarrow> 'v option" where
  "Map_get m k = map_of m k"

fun Map_set :: "('k, 'v) jsmap \<Rightarrow> 'k \<Rightarrow> 'v \<Rightarrow> ('k, 'v) jsmap" where
  "Map_set [] k v = [(k, v)]"
| "Map_set ((k', v') # m) k v = (if k' = k then (k, v) # m else (k', v') # Map_set m k v)"

definition Map_delete :: "('k, 'v) jsmap \<Rightarrow> 'k \<Rightarrow> ('k, 'v) jsmap" where
  "Map_delete m k = filter (\<lambda>p. fst p \<noteq> k) m"

definition Map_size :: "('k, 'v) jsmap \<Rightarrow> nat" where
  "Map_size m = length m"

definition Map_clear :: "('k, 'v) jsmap \<Rightarrow> ('k, 'v) jsmap" where
  "Map_clear m = []"

type_synonym pageCacheMap = "(string, PageCacheEntry) jsmap"

section \<open>Page Render Cache\<close>

text \<open>\<open>const PAGE_CACHE_DURATION = 30 * 60 * 1000\<close> (milliseconds).\<close>

definition PAGE_CACHE_DURATION :: int where
  "PAGE_CACHE_DURATION = 30 * 60 * 1000"

text \<open>
  \<open>cleanExpiredPageCache\<close>: every function that reads \<open>Date.now()\<close> takes the reading as its
  argument \<open>now\<close>. The loop walks the entries and deletes from the map as it goes.
\<close>

fun cleanExpiredLoop :: "int \<Rightarrow> (string \<times> PageCacheEntry) list \<Rightarrow> pageCacheMap \<Rightarrow> pageCacheMap" where
  "cleanExpiredLoop now [] pc = pc"
| "cleanExpiredLoop now ((key, entry) # rest) pc =
     cleanExpiredLoop now rest
       (if now - timestamp entry > PAGE_CACHE_DURATION then Map_delete pc key else pc)"

definition cleanExpiredPageCache :: "int \<Rightarrow> pageCacheMap \<Rightarrow> pageCacheMap" where
  "cleanExpiredPageCache now pc = cleanExpiredLoop now pc pc"

text \<open>\<open>isPageCacheValid\<close>\<close>

definition isPageCacheValid :: "pageCacheMap \<Rightarrow> string \<Rightarrow> int \<Rightarrow> bool" where
  "isPageCacheValid pc key now =
     (case Map_get pc key of
        None \<Rightarrow> False
      | Some entry \<Rightarrow> now - timestamp entry < PAGE_CACHE_DURATION)"

subsection \<open>Cache key\<close>

text \<open>
  \<open>String.prototype.toLowerCase\<close> on 8-bit code units: the letters A-Z and the Latin-1
  capitals U+00C0 to U+00DE (without the multiplication sign U+00D7) move up by 32.
\<close>

definition toLowerCaseChar :: "char \<Rightarrow> char" where
  "toLowerCaseChar c =
     (let n = (of_char c :: nat) in
      if (65 \<le> n \<and> n \<le> 90) \<or> (192 \<le> n \<and> n \<le> 222 \<and> n \<noteq> 215)
      then char_of (n + 32) else c)"

definition toLowerCase :: "string \<Rightarrow> string" where
  "toLowerCase s = map toLowerCaseChar s"

text \<open>\<open>String.prototype.includes\<close>: the search string occurs at some position.\<close>

fun str_includes :: "string \<Rightarrow> string \<Rightarrow> bool" where
  "str_includes [] search = (search = [])"
| "str_includes (c # cs) search =
     (take (length search) (c # cs) = search \<or> str_includes cs search)"

text \<open>
  \<open>generateCacheKey\<close>: the parameter \<open>userAgent?\<close> may be \<open>undefined\<close> (\<open>None\<close>), and then the
  optional chain is \<open>undefined\<close>, which is falsy. \<open>isMobile\<close> is the local constant of
  the source.
\<close>

definition isMobile :: "string option \<Rightarrow> string" where
  "isMobile userAgent =
     (if (case userAgent of
            None \<Rightarrow> False
          | Some ua \<Rightarrow> str_includes (toLowerCase ua) ''mobile'')
      then ''mobile'' else ''desktop'')"

definition generateCacheKey :: "string \<Rightarrow> string option \<Rightarrow> string" where
  "generateCacheKey url userAgent = url @ '':'' @ isMobile userAgent"

subsection \<open>Clear and statistics\<close>

text \<open>
  What the server writes to the console, one constructor for each message whose
  content matters below.
\<close>

datatype logLine =
    PageCacheCleared nat
  | ThemeSetSuccessfully jsvalue

text \<open>
  \<open>clearPageCache\<close> returns nothing: it empties the map and logs the size the map had.
  The model returns the new map and the line logged.
\<close>

definition clearPageCache :: "pageCacheMap \<Rightarrow> pageCacheMap \<times> logLine" where
  "clearPageCache pc =
     (let cacheSize = Map_size pc in (Map_clear pc, PageCacheCleared cacheSize))"

record cacheStats =
  total :: nat
  valid :: nat
  expired :: nat

fun statsLoop :: "int \<Rightarrow> (string \<times> PageCacheEntry) list \<Rightarrow> nat \<Rightarrow> nat \<Rightarrow> nat \<times> nat" where
  "statsLoop now [] validEntries expiredEntries = (validEntries, expiredEntries)"
| "statsLoop now ((key, entry) # rest) validEntries expiredEntries =
     (if now - timestamp entry > PAGE_CACHE_DURATION
      then statsLoop now rest validEntries (expiredEntries + 1)
      else statsLoop now rest (validEntries + 1) expiredEntries)"

definition getCacheStats :: "int \<Rightarrow> pageCacheMap \<Rightarrow> cacheStats" where
  "getCacheStats now pc =
     (case statsLoop now pc 0 0 of
        (validEntries, expiredEntries) \<Rightarrow>
          \<lparr>total = Map_size pc, valid = validEntries, expired = expiredEntries\<rparr>)"

section \<open>External functions\<close>

text \<open>
  The functions of Node and of the packages the server imports are parameters:
  \<open>zlib.gzipSync\<close>, \<open>zlib.brotliCompressSync\<close> (both take a string or a buffer), the hex
  digest of \<open>crypto.createHash('md5')\<close>, \<open>mime.lookup\<close> (\<open>None\<close> is its \<open>false\<close>),
  \<open>JSON.parse\<close> (\<open>None\<close> is the SyntaxError it throws) and the string a template literal
  makes of a value.
\<close>

record lib =
  gzipSync :: "payload \<Rightarrow> buffer"
  brotliCompressSync :: "payload \<Rightarrow> buffer"
  md5hex :: "buffer \<Rightarrow> string"
  mimeLookup :: "string \<Rightarrow> string option"
  JSON_parse :: "string \<Rightarrow> jsvalue option"
  toStr :: "jsvalue \<Rightarrow> string"

text \<open>\<open>loadEnv(...)\<close>: the variables the server reads; an unset variable is \<open>undefined\<close>.\<close>

record env =
  VITE_SIGNATURE :: "string option"
  VITE_WEBSITE_URL :: "string option"
  VITE_API_URL :: "string option"

text \<open>A string or \<open>undefined\<close> inside a template literal.\<close>

definition interpolate :: "string option \<Rightarrow> string" where
  "interpolate v = (case v of None \<Rightarrow> ''undefined'' | Some s \<Rightarrow> s)"

text \<open>\<open>v || d\<close> for a value \<open>v\<close> that is a string or \<open>undefined\<close>: the empty string is falsy.\<close>

definition orElse :: "string option \<Rightarrow> string \<Rightarrow> string" where
  "orElse v d = (case v of None \<Rightarrow> d | Some s \<Rightarrow> if s = [] then d else s)"

text \<open>Truthiness of a value, and of a string that may be \<open>null\<close>.\<close>

fun truthy :: "jsvalue \<Rightarrow> bool" where
  "truthy JUndefined = False"
| "truthy JNull = False"
| "truthy (JBool b) = b"
| "truthy (JNum n) = (n \<noteq> 0)"
| "truthy (JStr s) = (s \<noteq> [])"
| "truthy (JArr xs) = True"
| "truthy (JObj fs) = True"

definition nullish :: "jsvalue \<Rightarrow> bool" where
  "nullish v = (v = JNull \<or> v = JUndefined)"

text \<open>
  \<open>v.k\<close> for a value that is not nullish and a property name \<open>k\<close> that no prototype
  defines (on a nullish value the access throws a TypeError, which the callers test
  with \<open>nullish\<close> first).
\<close>

definition getProp :: "jsvalue \<Rightarrow> string \<Rightarrow> jsvalue" where
  "getProp v k =
     (case v of
        JObj fs \<Rightarrow> (case map_of fs k of None \<Rightarrow> JUndefined | Some x \<Rightarrow> x)
      | _ \<Rightarrow> JUndefined)"

section \<open>Compression Negotiator\<close>

record compressed =
  data :: payload
  encoding :: "string option"

text \<open>
  \<open>compressHtml\<close> and \<open>compressFile\<close>: the parameter \<open>acceptEncoding: string = ''\<close> takes its
  default when the argument is \<open>undefined\<close> (\<open>None\<close>).
\<close>

definition compressHtml :: "lib \<Rightarrow> string \<Rightarrow> string option \<Rightarrow> compressed" where
  "compressHtml l html' acceptEncoding' =
     (let acceptEncoding = (case acceptEncoding' of None \<Rightarrow> [] | Some s \<Rightarrow> s) in
      if str_includes acceptEncoding ''br''
      then \<lparr>data = Buf (brotliCompressSync l (Str html')), encoding = Some ''br''\<rparr>
      else if str_includes acceptEncoding ''gzip''
      then \<lparr>data = Buf (gzipSync l (Str html')), encoding = Some ''gzip''\<rparr>
      else \<lparr>data = Str html', encoding = None\<rparr>)"

definition compressFile :: "lib \<Rightarrow> buffer \<Rightarrow> string option \<Rightarrow> compressed" where
  "compressFile l buffer' acceptEncoding' =
     (let acceptEncoding = (case acceptEncoding' of None \<Rightarrow> [] | Some s \<Rightarrow> s) in
      if str_includes acceptEncoding ''br''
      then \<lparr>data = Buf (brotliCompressSync l (Buf buffer')), encoding = Some ''br''\<rparr>
      else if str_includes acceptEncoding ''gzip''
      then \<lparr>data = Buf (gzipSync l (Buf buffer')), encoding = Some ''gzip''\<rparr>
      else \<lparr>data = Buf buffer', encoding = None\<rparr>)"

section \<open>Requests and responses\<close>

text \<open>
  \<open>http.IncomingMessage\<close>: \<open>req.url\<close> may be \<open>undefined\<close> by its type; \<open>req.headers\<close> maps
  lower-case header names to values; \<open>reqBody\<close> is what the \<open>data\<close> events deliver.
\<close>

record request =
  url :: "string option"
  reqMethod :: string
  reqHeaders :: "(string \<times> string) list"
  reqBody :: string

definition header :: "request \<Rightarrow> string \<Rightarrow> string option" where
  "header req name' = map_of (reqHeaders req) name'"

text \<open>
  \<open>http.ServerResponse\<close>: a fresh response has status 200, no header and is not ended.
  A body that is \<open>JSON.stringify(v)\<close> is kept as the value \<open>v\<close>. The source writes each
  header name in one spelling only, so the names are compared as they are written.
\<close>

datatype resBody = Data payload | Json jsvalue

record response =
  statusCode :: nat
  resHeaders :: "(string \<times> string) list"
  body :: "resBody option"
  ended :: bool

definition newResponse :: response where
  "newResponse = \<lparr>statusCode = 200, resHeaders = [], body = None, ended = False\<rparr>"

definition setHeader :: "string \<Rightarrow> string \<Rightarrow> response \<Rightarrow> response" where
  "setHeader name' v res = res\<lparr>resHeaders := Map_set (resHeaders res) name' v\<rparr>"

definition setHeaders :: "(string \<times> string) list \<Rightarrow> response \<Rightarrow> response" where
  "setHeaders hs res = fold (\<lambda>(name', v). setHeader name' v) hs res"

definition writeHead :: "nat \<Rightarrow> (string \<times> string) list \<Rightarrow> response \<Rightarrow> response" where
  "writeHead code hs res = setHeaders hs (res\<lparr>statusCode := code\<rparr>)"

definition setStatus :: "nat \<Rightarrow> response \<Rightarrow> response" where
  "setStatus code res = res\<lparr>statusCode := code\<rparr>"

definition endWith :: "resBody option \<Rightarrow> response \<Rightarrow> response" where
  "endWith b res = res\<lparr>body := b, ended := True\<rparr>"

section \<open>Static files\<close>



record fileCacheEntry =
  buffer :: buffer
  etag :: string
  mtime :: int

type_synonym fileCacheMap = "(string, fileCacheEntry) jsmap"



section \<open>Theme Registry\<close>

record themeDescriptor =
  namespace :: string
  name :: jsvalue
  description :: jsvalue
  author :: jsvalue
  version :: jsvalue
  preview :: string

type_synonym themesMap = "(string, themeDescriptor) jsmap"

definition startsWith :: "string \<Rightarrow> string \<Rightarrow> bool" where
  "startsWith s p = (take (length p) s = p)"

text \<open>
  \<open>s.replace(pat, rep)\<close> for a string pattern and a replacement without \<open>$\<close>: the first
  occurrence of the pattern is replaced.
\<close>

fun str_replace :: "string \<Rightarrow> string \<Rightarrow> string \<Rightarrow> string" where
  "str_replace [] pat rep = (if pat = [] then rep else [])"
| "str_replace (c # cs) pat rep =
     (if take (length pat) (c # cs) = pat then rep @ drop (length pat) (c # cs)
      else c # str_replace cs pat rep)"

text \<open>
  What \<open>bootstrap\<close> reads of an entry of the themes directory: its name, whether it is a
  directory, and its \<open>theme.json\<close>: absent, or not readable as JSON (\<open>JSON.parse\<close> or the
  read throws), or the value parsed.
\<close>

datatype manifest = NoManifest | BadManifest | Manifest jsvalue

record dirEntry =
  entryName :: string
  entryIsDirectory :: bool
  themeJson :: manifest

text \<open>
  The loop of \<open>bootstrap\<close> over \<open>themeFolders\<close>. Reading a property of \<open>null\<close> throws, and the
  \<open>catch\<close> skips the folder.
\<close>

fun loadThemes :: "env \<Rightarrow> lib \<Rightarrow> dirEntry list \<Rightarrow> themesMap \<Rightarrow> themesMap" where
  "loadThemes e l [] themes = themes"
| "loadThemes e l (d # rest) themes =
     loadThemes e l rest
       (case themeJson d of
          Manifest themeData \<Rightarrow>
            if nullish themeData then themes
            else Map_set themes (''./'' @ entryName d @ ''/theme.json'')
                   \<lparr>namespace = str_replace (entryName d) ''theme-'' [],
                    name = getProp themeData ''name'',
                    description = getProp themeData ''description'',
                    author = getProp themeData ''author'',
                    version = getProp themeData ''version'',
                    preview = interpolate (VITE_WEBSITE_URL e)
                                @ toStr l (getProp themeData ''preview'')\<rparr>
        | _ \<Rightarrow> themes)"

definition discoverThemes :: "env \<Rightarrow> lib \<Rightarrow> dirEntry list \<Rightarrow> themesMap" where
  "discoverThemes e l entries =
     (let themeFolders =
            filter (\<lambda>d. startsWith (entryName d) ''theme-'' \<and> entryIsDirectory d) entries
      in loadThemes e l themeFolders [])"

text \<open>
  The regular expression \<open>/\.\/theme-([^/]+)\/theme\.json/\<close>: a match at the start of a
  string, and the leftmost match anywhere. The group is followed by a slash and holds
  none, so it is the longest run without a slash.
\<close>

definition matchThemeAt :: "string \<Rightarrow> string option" where
  "matchThemeAt s =
     (if take 8 s = ''./theme-''
      then
        (let r = drop 8 s;
             g = takeWhile (\<lambda>c. c \<noteq> CHR ''/'') r;
             t = dropWhile (\<lambda>c. c \<noteq> CHR ''/'') r
         in if g \<noteq> [] \<and> take 11 t = ''/theme.json'' then Some g else None)
      else None)"

fun matchTheme :: "string \<Rightarrow> string option" where
  "matchTheme [] = None"
| "matchTheme (c # cs) =
     (case matchThemeAt (c # cs) of Some g \<Rightarrow> Some g | None \<Rightarrow> matchTheme cs)"

section \<open>Admin Control Endpoints\<close>

text \<open>
  The state of the process: the two caches, the themes that \<open>bootstrap\<close> found, the
  console, the value last given to \<open>settingsStore.setSettings\<close>, and the restarts that
  \<open>setTimeout\<close> has scheduled (the theme of each).
\<close>

record serverState =
  pageCache :: pageCacheMap
  fileCache :: fileCacheMap
  themes :: themesMap
  console :: "logLine list"
  settingsStore :: "(string \<times> jsvalue) list option"
  restartTimers :: "jsvalue list"

text \<open>The bearer check that the three admin routes share, and its 401 response.\<close>

definition authorized :: "env \<Rightarrow> request \<Rightarrow> bool" where
  "authorized e req =
     (let authHeader = orElse (header req ''authorization'') [];
          expectedAuth = ''Bearer '' @ interpolate (VITE_SIGNATURE e)
      in authHeader = expectedAuth)"

definition unauthorized :: "response \<Rightarrow> response" where
  "unauthorized res =
     endWith (Some (Data (Str ''Unauthorized'')))
       (setHeader ''Content-Type'' ''text/plain'' (setStatus 401 res))"

text \<open>\<open>GET /themas\<close>\<close>

definition themeJsonValue :: "themeDescriptor \<Rightarrow> jsvalue" where
  "themeJsonValue t =
     JObj [(''namespace'', JStr (namespace t)), (''name'', name t),
           (''description'', description t), (''author'', author t),
           (''version'', version t), (''preview'', JStr (preview t))]"

definition themas :: "serverState \<Rightarrow> response \<Rightarrow> response" where
  "themas s res =
     (let themeList = map (\<lambda>path. themeJsonValue (snd path)) (themes s) in
      endWith (Some (Json (JArr themeList)))
        (setStatus 200 (setHeader ''Content-Type'' ''application/json'' res)))"

text \<open>\<open>POST /cache/clear\<close>, after the bearer check.\<close>

definition cacheClear :: "serverState \<Rightarrow> response \<Rightarrow> serverState \<times> response" where
  "cacheClear s res =
     (case clearPageCache (pageCache s) of
        (pc', line) \<Rightarrow>
          (s\<lparr>pageCache := pc', console := console s @ [line]\<rparr>,
           endWith
             (Some (Json (JObj [(''success'', JBool True),
                                (''message'', JStr ''Cache cleared successfully'')])))
             (setHeader ''Content-Type'' ''application/json'' (setStatus 200 res))))"

text \<open>\<open>GET /cache/stats\<close>, after the bearer check.\<close>

definition cacheStatsJson :: "cacheStats \<Rightarrow> jsvalue" where
  "cacheStatsJson stats =
     JObj [(''total'', JNum (of_nat (total stats))), (''valid'', JNum (of_nat (valid stats))),
           (''expired'', JNum (of_nat (expired stats)))]"

definition cacheStatsRoute :: "int \<Rightarrow> serverState \<Rightarrow> response \<Rightarrow> serverState \<times> response" where
  "cacheStatsRoute now s res =
     (let stats = getCacheStats now (pageCache s) in
      (s, endWith (Some (Json (cacheStatsJson stats)))
            (setHeader ''Content-Type'' ''application/json'' (setStatus 200 res))))"

text \<open>
  \<open>POST /set-thema\<close>, after the bearer check, once the body has arrived. Lines 337 to 341
  call the settings API and the settings store, which are outside this file: their
  outcome is a parameter, \<open>FetchFails\<close> for every exception there (the \<open>catch\<close> answers all
  of them alike), \<open>Settings\<close> for the settings object fetched.
\<close>

datatype settingsFetch = FetchFails | Settings "(string \<times> jsvalue) list"

definition invalidRequestBody :: "response \<Rightarrow> response" where
  "invalidRequestBody res =
     endWith (Some (Data (Str ''Invalid request body'')))
       (setHeader ''Content-Type'' ''text/plain'' (setStatus 400 res))"

definition themeExists :: "themesMap \<Rightarrow> jsvalue \<Rightarrow> bool" where
  "themeExists ths theme =
     list_ex (\<lambda>path.
        let themeName = orElse (matchTheme path) [] in JStr themeName = theme)
       (map fst ths)"

definition setThema ::
  "lib \<Rightarrow> settingsFetch \<Rightarrow> string \<Rightarrow> serverState \<Rightarrow> response \<Rightarrow> serverState \<times> response" where
  "setThema l fetched body' s res =
     (case JSON_parse l body' of
        None \<Rightarrow> (s, invalidRequestBody res)
      | Some parsed \<Rightarrow>
          if nullish parsed then (s, invalidRequestBody res)
          else
            let theme = getProp parsed ''theme'' in
            if \<not> truthy theme
            then (s, endWith
                       (Some (Json (JObj [(''success'', JBool False),
                                          (''error'', JStr ''Theme name is required'')])))
                       (setHeader ''Content-Type'' ''application/json'' (setStatus 400 res)))
            else if \<not> themeExists (themes s) theme
            then (s, endWith (Some (Data (Str ''Theme not found'')))
                       (setHeader ''Content-Type'' ''text/plain'' (setStatus 404 res)))
            else
              (case fetched of
                 FetchFails \<Rightarrow> (s, invalidRequestBody res)
               | Settings settingsData \<Rightarrow>
                   (s\<lparr>settingsStore := Some (Map_set settingsData ''blog.theme'' theme),
                      console := console s @ [ThemeSetSuccessfully theme],
                      restartTimers := restartTimers s @ [theme]\<rparr>,
                    endWith
                      (Some (Data (Str
                         ''Theme set successfully. Server will restart to apply changes.'')))
                      (setHeader ''Content-Type'' ''text/plain'' (setStatus 200 res)))))"

text \<open>
  The four routes at the head of the request handler, in the order of the source;
  \<open>None\<close> when none of them takes the request. \<open>now\<close> is the clock reading of
  \<open>getCacheStats\<close>.
\<close>

definition adminRoutes ::
  "env \<Rightarrow> lib \<Rightarrow> settingsFetch \<Rightarrow> int \<Rightarrow> request \<Rightarrow> serverState \<Rightarrow> response
     \<Rightarrow> (serverState \<times> response) option" where
  "adminRoutes e l fetched now req s res =
     (let url' = orElse (url req) [] in
      if url' = ''/themas'' \<and> reqMethod req = ''GET'' then Some (s, themas s res)
      else if url' = ''/cache/clear'' \<and> reqMethod req = ''POST''
      then Some (if \<not> authorized e req then (s, unauthorized res) else cacheClear s res)
      else if url' = ''/cache/stats'' \<and> reqMethod req = ''GET''
      then Some (if \<not> authorized e req then (s, unauthorized res)
                 else cacheStatsRoute now s res)
      else if url' = ''/set-thema'' \<and> reqMethod req = ''POST''
      then Some (if \<not> authorized e req then (s, unauthorized res)
                 else setThema l fetched (reqBody req) s res)
      else None)"

section \<open>The cache-or-render path\<close>

text \<open>The regular expression \<open>/\.\w+$/\<close>: a dot and then word characters up to the end.\<close>

definition isWordChar :: "char \<Rightarrow> bool" where
  "isWordChar c =
     (let n = (of_char c :: nat) in
      (48 \<le> n \<and> n \<le> 57) \<or> (65 \<le> n \<and> n \<le> 90) \<or> n = 95 \<or> (97 \<le> n \<and> n \<le> 122))"

definition testExtension :: "string \<Rightarrow> bool" where
  "testExtension s =
     (let r = rev s in
      takeWhile isWordChar r \<noteq> [] \<and>
      (case dropWhile isWordChar r of [] \<Rightarrow> False | c # _ \<Rightarrow> c = CHR ''.''))"

definition responseHeaders :: "(string \<times> string) list" where
  "responseHeaders =
     [(''Content-Type'', ''text/html''), (''Cache-Control'', ''public, max-age=900'')]"

text \<open>
  Lines 403 to 405: the lookup of the cache-hit path, \<open>isPageCacheValid(cacheKey)\<close> and
  then \<open>pageCache.get(cacheKey)\<close>; \<open>None\<close> is a miss.
\<close>

definition pageCacheLookup :: "pageCacheMap \<Rightarrow> string \<Rightarrow> int \<Rightarrow> PageCacheEntry option" where
  "pageCacheLookup pc cacheKey now =
     (if isPageCacheValid pc cacheKey now then Map_get pc cacheKey else None)"

text \<open>Lines 408 to 428: the response of a cache hit.\<close>

definition serveCached :: "string \<Rightarrow> PageCacheEntry \<Rightarrow> response \<Rightarrow> response" where
  "serveCached acceptEncoding cachedEntry res =
     (let res1 = setHeaders (headers cachedEntry) res;
          versions = compressedVersions cachedEntry
      in
      case (if str_includes acceptEncoding ''br'' then br versions else None) of
        Some b \<Rightarrow> endWith (Some (Data (Buf b))) (setHeader ''Content-Encoding'' ''br'' res1)
      | None \<Rightarrow>
          (case (if str_includes acceptEncoding ''gzip'' then gzip versions else None) of
             Some g \<Rightarrow>
               endWith (Some (Data (Buf g))) (setHeader ''Content-Encoding'' ''gzip'' res1)
           | None \<Rightarrow> endWith (Some (Data (Str (uncompressed versions)))) res1))"

text \<open>
  Lines 481 to 493: the store. \<open>now\<close> is the reading of \<open>Date.now()\<close> in the entry.
\<close>

definition pageCacheStore ::
  "lib \<Rightarrow> pageCacheMap \<Rightarrow> string \<Rightarrow> string \<Rightarrow> int \<Rightarrow> pageCacheMap" where
  "pageCacheStore l pc cacheKey template now =
     (let gzipCompressed = gzipSync l (Str template);
          brotliCompressed = brotliCompressSync l (Str template)
      in Map_set pc cacheKey
           \<lparr>html = template,
            compressedVersions =
              \<lparr>gzip = Some gzipCompressed, br = Some brotliCompressed,
               uncompressed = template\<rparr>,
            timestamp = now,
            headers = responseHeaders\<rparr>)"

text \<open>
  The callback given to \<open>vite.middlewares\<close>, up to the first \<open>await\<close> (lines 393 to 431):
  it answers (404 for a path with an extension, or the cached entry) or it is a miss
  and the rendering starts. \<open>nowSweep\<close> and \<open>nowLookup\<close> are the clock readings of
  \<open>cleanExpiredPageCache\<close> and of \<open>isPageCacheValid\<close>.
\<close>

datatype lookupResult = Responded response | Miss string

definition cacheLookup ::
  "request \<Rightarrow> int \<Rightarrow> int \<Rightarrow> pageCacheMap \<Rightarrow> response \<Rightarrow> pageCacheMap \<times> lookupResult" where
  "cacheLookup req nowSweep nowLookup pc res =
     (let url' = orElse (url req) [];
          acceptEncoding = orElse (header req ''accept-encoding'') []
      in
      if testExtension url'
      then (pc, Responded (endWith (Some (Data (Str (''Not found: '' @ url'))))
                             (setStatus 404 res)))
      else
        let pc1 = cleanExpiredPageCache nowSweep pc;
            userAgent = orElse (header req ''user-agent'') [];
            cacheKey = generateCacheKey url' (Some userAgent)
        in
        (case pageCacheLookup pc1 cacheKey nowLookup of
           Some cachedEntry \<Rightarrow> (pc1, Responded (serveCached acceptEncoding cachedEntry res))
         | None \<Rightarrow> (pc1, Miss cacheKey)))"

text \<open>
  The rest of the callback, after a miss (lines 435 to 505). The rendering engine and
  the assembly of the document are outside this model, and their outcome is a
  parameter: an exception before the response headers are set, a redirect, or the final
  document \<open>template\<close>. The page cache is the one of the moment the rendering ends.
\<close>

datatype renderOutcome = RenderThrows string | Redirect string | Rendered string

definition renderAndStore ::
  "lib \<Rightarrow> request \<Rightarrow> string \<Rightarrow> renderOutcome \<Rightarrow> int \<Rightarrow> pageCacheMap \<Rightarrow> response
     \<Rightarrow> pageCacheMap \<times> response" where
  "renderAndStore l req cacheKey outcome now pc res =
     (let acceptEncoding = orElse (header req ''accept-encoding'') [] in
      case outcome of
        RenderThrows message \<Rightarrow> (pc, endWith (Some (Data (Str message))) (setStatus 500 res))
      | Redirect redirect \<Rightarrow>
          (pc, endWith None (writeHead 301 [(''Location'', redirect)] res))
      | Rendered template \<Rightarrow>
          let res1 = setHeaders responseHeaders res;
              pc' = pageCacheStore l pc cacheKey template now;
              compressed = compressHtml l template (Some acceptEncoding);
              res2 =
                (case encoding compressed of
                   None \<Rightarrow> res1
                 | Some enc \<Rightarrow>
                     if enc = [] then res1 else setHeader ''Content-Encoding'' enc res1)
          in (pc', endWith (Some (Data (data compressed))) res2))"

section \<open>Accepted encodings, in the words of the specification\<close>

text \<open>
  The specification speaks of the encodings that a client accepts; the source has no
  such notion, it searches the header value for a name. \<open>specAccepted\<close> follows the
  specification's words and the form of an \<open>Accept-Encoding\<close> value, not the source: the
  value is a list of codings separated by commas, each with an optional weight after a
  semicolon, and a coding is accepted when the list names it with a weight that is not
  zero. Names are compared as they are written.
\<close>

fun splitOn :: "char \<Rightarrow> string \<Rightarrow> string list" where
  "splitOn sep [] = [[]]"
| "splitOn sep (c # cs) =
     (if c = sep then [] # splitOn sep cs
      else (case splitOn sep cs of [] \<Rightarrow> [[c]] | x # xs \<Rightarrow> (c # x) # xs))"

definition isSpace :: "char \<Rightarrow> bool" where
  "isSpace c = (c = CHR '' '' \<or> c = CHR 0x09)"

definition trimSpaces :: "string \<Rightarrow> string" where
  "trimSpaces s = rev (dropWhile isSpace (rev (dropWhile isSpace s)))"

definition codingOf :: "string \<Rightarrow> string" where
  "codingOf element = trimSpaces (takeWhile (\<lambda>c. c \<noteq> CHR '';'') element)"

definition weightOf :: "string \<Rightarrow> string" where
  "weightOf element = trimSpaces (drop 1 (dropWhile (\<lambda>c. c \<noteq> CHR '';'') element))"

definition zeroWeights :: "string list" where
  "zeroWeights = [''q=0'', ''q=0.'', ''q=0.0'', ''q=0.00'', ''q=0.000'']"

definition specAccepted :: "string \<Rightarrow> string \<Rightarrow> bool" where
  "specAccepted acceptedEncodings coding =
     list_ex (\<lambda>element. codingOf element = coding \<and> weightOf element \<notin> set zeroWeights)
       (splitOn CHR '','' acceptedEncodings)"

section \<open>Reachable page caches\<close>

text \<open>
  The page cache starts empty, and three places of the source change it: the sweep at
  the head of the cache-or-render callback, the store at its end, and \<open>clearPageCache\<close>.
\<close>

inductive reachable :: "lib \<Rightarrow> pageCacheMap \<Rightarrow> bool" for l :: lib where
  initial: "reachable l []"
| lookup: "reachable l pc \<Longrightarrow> reachable l (fst (cacheLookup req nowSweep nowLookup pc res))"
| render: "reachable l pc \<Longrightarrow> reachable l (fst (renderAndStore l req cacheKey outcome now pc res))"
| clear: "reachable l pc \<Longrightarrow> reachable l (fst (clearPageCache pc))"

section \<open>Example inputs\<close>

text \<open>
  Concrete values for the external functions, the environment, a page cache with two
  entries stored at the clock readings 0 and 1000, a server state, and requests that
  carry the bearer token.
\<close>

definition exampleParse :: "string \<Rightarrow> jsvalue option" where
  \<open>exampleParse s =
     (if s = ''{"theme":"unknown-namespace"}'' then Some (JObj [(''theme'', JStr ''unknown-namespace'')])
      else if s = ''{"theme":"default"}'' then Some (JObj [(''theme'', JStr ''default'')])
      else if s = ''{}'' then Some (JObj [])
      else if s = ''null'' then Some JNull
      else None)\<close>

definition exampleLib :: lib where
  "exampleLib =
     \<lparr>gzipSync = (\<lambda>p. [31, 139, 8]),
      brotliCompressSync = (\<lambda>p. [27]),
      md5hex = (\<lambda>b. ''5d41402abc4b2a76b9719d911017c592''),
      mimeLookup = (\<lambda>p. Some ''text/css''),
      JSON_parse = exampleParse,
      toStr = (\<lambda>v. case v of JStr s \<Rightarrow> s | _ \<Rightarrow> ''undefined'')\<rparr>"

definition exampleEnv :: env where
  "exampleEnv =
     \<lparr>VITE_SIGNATURE = Some ''secret'',
      VITE_WEBSITE_URL = Some ''http://localhost:5001'',
      VITE_API_URL = Some ''http://localhost:5000''\<rparr>"

definition examplePageCache :: pageCacheMap where
  "examplePageCache =
     pageCacheStore exampleLib
       (pageCacheStore exampleLib [] ''/:desktop'' ''<html>home</html>'' 0)
       ''/about:mobile'' ''<html>about</html>'' 1000"

definition exampleDir :: "dirEntry list" where
  "exampleDir =
     [\<lparr>entryName = ''components'', entryIsDirectory = True, themeJson = NoManifest\<rparr>,
      \<lparr>entryName = ''theme-default'', entryIsDirectory = True,
       themeJson = Manifest (JObj [(''name'', JStr ''Default''), (''version'', JStr ''1.0.0''),
                                   (''preview'', JStr ''/default.png'')])\<rparr>,
      \<lparr>entryName = ''theme-broken'', entryIsDirectory = True, themeJson = BadManifest\<rparr>,
      \<lparr>entryName = ''theme-notes.txt'', entryIsDirectory = False, themeJson = NoManifest\<rparr>]"

definition exampleState :: serverState where
  "exampleState =
     \<lparr>pageCache = examplePageCache, fileCache = [],
      themes = discoverThemes exampleEnv exampleLib exampleDir, console = [],
      settingsStore = None, restartTimers = []\<rparr>"

definition adminRequest :: "string \<Rightarrow> string \<Rightarrow> string \<Rightarrow> request" where
  "adminRequest m u b =
     \<lparr>url = Some u, reqMethod = m, reqHeaders = [(''authorization'', ''Bearer secret'')],
      reqBody = b\<rparr>"

text \<open>
  A page cache with one entry, as the store writes it at the clock reading 0; at the
  reading 1800000 its age is the time-to-live.
\<close>

definition boundaryEntry :: PageCacheEntry where
  "boundaryEntry =
     \<lparr>html = ''<html>home</html>'',
      compressedVersions =
        \<lparr>gzip = Some [31, 139, 8], br = Some [27], uncompressed = ''<html>home</html>''\<rparr>,
      timestamp = 0,
      headers = responseHeaders\<rparr>"

definition boundaryPageCache :: pageCacheMap where
  "boundaryPageCache = [(''/:desktop'', boundaryEntry)]"

text \<open>Two \<open>User-Agent\<close> values, of a phone and of a desktop browser.\<close>

definition iphoneUserAgent :: string where
  "iphoneUserAgent =
     ''Mozilla/5.0 (iPhone; CPU iPhone OS 17_0 like Mac OS X) Version/17.0 Mobile/15E148 Safari/604.1''"

definition desktopUserAgent :: string where
  "desktopUserAgent = ''Mozilla/5.0 (X11; Linux x86_64) Chrome/120.0 Safari/537.36''"



text \<open>Two bodies of \<open>POST /set-thema\<close>, which \<open>exampleParse\<close> reads.\<close>

definition unknownThemeBody :: string where
  \<open>unknownThemeBody = ''{"theme":"unknown-namespace"}''\<close>

definition knownThemeBody :: string where
  \<open>knownThemeBody = ''{"theme":"default"}''\<close>

section \<open>Properties of the map and of the loops\<close>

lemma Map_get_Map_set: "Map_get (Map_set m k v) k' = (if k' = k then Some v else Map_get m k')"
  by (induction m) (auto simp: Map_get_def)

lemma keys_Map_set: "fst ` set (Map_set m k v) = insert k (fst ` set m)"
proof (induction m)
  case Nil
  then show ?case by simp
next
  case (Cons p m)
  obtain k' v' where p: "p = (k', v')" by (cases p)
  show ?case
  proof (cases "k' = k")
    case True
    then show ?thesis by (simp add: p)
  next
    case False
    then show ?thesis using Cons.IH by (simp add: p insert_commute)
  qed
qed

lemma distinct_Map_set: "distinct (map fst m) \<Longrightarrow> distinct (map fst (Map_set m k v))"
proof (induction m)
  case Nil
  then show ?case by simp
next
  case (Cons p m)
  obtain k' v' where p: "p = (k', v')" by (cases p)
  show ?case
  proof (cases "k' = k")
    case True
    then show ?thesis using Cons.prems by (simp add: p)
  next
    case False
    then show ?thesis using Cons by (simp add: p keys_Map_set)
  qed
qed

lemma distinct_Map_delete: "distinct (map fst m) \<Longrightarrow> distinct (map fst (Map_delete m k))"
  by (simp add: Map_delete_def distinct_map_filter)

lemma cleanExpiredLoop_filter:
  "cleanExpiredLoop now xs pc =
     filter (\<lambda>p. \<not> (\<exists>q \<in> set xs. fst q = fst p \<and> now - timestamp (snd q) > PAGE_CACHE_DURATION)) pc"
proof (induction xs arbitrary: pc)
  case Nil
  then show ?case by simp
next
  case (Cons x xs)
  obtain key entry where x: "x = (key, entry)" by (cases x)
  show ?case
  proof (cases "now - timestamp entry > PAGE_CACHE_DURATION")
    case True
    then have "cleanExpiredLoop now (x # xs) pc = cleanExpiredLoop now xs (filter (\<lambda>p. fst p \<noteq> key) pc)"
      by (simp add: x Map_delete_def)
    also have "\<dots> = filter (\<lambda>p. fst p \<noteq> key \<and>
        \<not> (\<exists>q \<in> set xs. fst q = fst p \<and> now - timestamp (snd q) > PAGE_CACHE_DURATION)) pc"
      by (simp add: Cons.IH)
    also have "\<dots> = filter (\<lambda>p. \<not> (\<exists>q \<in> set (x # xs). fst q = fst p \<and>
        now - timestamp (snd q) > PAGE_CACHE_DURATION)) pc"
      using True by (intro filter_cong refl) (auto simp: x)
    finally show ?thesis .
  next
    case False
    then show ?thesis
      unfolding x cleanExpiredLoop.simps Cons.IH
      by (intro filter_cong refl) auto
  qed
qed

lemma distinct_key_unique:
  assumes "distinct (map fst m)" and "p \<in> set m" and "q \<in> set m" and "fst q = fst p"
  shows "q = p"
  using assms by (meson distinct_map inj_onD)

lemma cleanExpiredPageCache_filter:
  assumes "distinct (map fst pc)"
  shows "cleanExpiredPageCache now pc =
           filter (\<lambda>p. \<not> now - timestamp (snd p) > PAGE_CACHE_DURATION) pc"
  unfolding cleanExpiredPageCache_def cleanExpiredLoop_filter
proof (rule filter_cong [OF refl])
  fix p assume p: "p \<in> set pc"
  show "(\<not> (\<exists>q \<in> set pc. fst q = fst p \<and> now - timestamp (snd q) > PAGE_CACHE_DURATION))
        = (\<not> now - timestamp (snd p) > PAGE_CACHE_DURATION)"
    using p distinct_key_unique [OF assms p] by blast
qed

lemma statsLoop_count:
  "statsLoop now xs v e =
     (v + length (filter (\<lambda>p. \<not> now - timestamp (snd p) > PAGE_CACHE_DURATION) xs),
      e + length (filter (\<lambda>p. now - timestamp (snd p) > PAGE_CACHE_DURATION) xs))"
  by (induction now xs v e rule: statsLoop.induct) auto

lemma Map_get_member:
  assumes "distinct (map fst m)" and "(k, v) \<in> set m"
  shows "Map_get m k = Some v"
  using assms by (simp add: Map_get_def)

lemma set_Map_set: "set (Map_set m k v) \<subseteq> insert (k, v) (set m)"
  by (induction m) (auto split: if_splits)

lemma set_cleanExpiredPageCache: "set (cleanExpiredPageCache now pc) \<subseteq> set pc"
  by (simp add: cleanExpiredPageCache_def cleanExpiredLoop_filter)

lemma fst_cacheLookup:
  "fst (cacheLookup req nowSweep nowLookup pc res) = pc
   \<or> fst (cacheLookup req nowSweep nowLookup pc res) = cleanExpiredPageCache nowSweep pc"
  by (simp add: cacheLookup_def Let_def split: option.split)

lemma fst_renderAndStore:
  "fst (renderAndStore l req cacheKey outcome now pc res) =
     (case outcome of Rendered template \<Rightarrow> pageCacheStore l pc cacheKey template now | _ \<Rightarrow> pc)"
  by (simp add: renderAndStore_def Let_def split: renderOutcome.split)

lemma reachable_distinct: "reachable l pc \<Longrightarrow> distinct (map fst pc)"
proof (induction rule: reachable.induct)
  case initial
  then show ?case by simp
next
  case (lookup pc req nowSweep nowLookup res)
  then show ?case
    using fst_cacheLookup [of req nowSweep nowLookup pc res]
    by (auto simp: cleanExpiredPageCache_filter distinct_map_filter)
next
  case (render pc req cacheKey outcome now res)
  then show ?case
    by (cases outcome) (simp_all add: fst_renderAndStore pageCacheStore_def distinct_Map_set)
next
  case (clear pc)
  then show ?case by (simp add: clearPageCache_def Map_clear_def)
qed

lemma reachable_store:
  "reachable l pc \<Longrightarrow> reachable l (pageCacheStore l pc cacheKey template now)"
  using reachable.render [where outcome = "Rendered template" and l = l and pc = pc]
  by (simp add: fst_renderAndStore)

lemma isMobile_cases: "isMobile ua = ''mobile'' \<or> isMobile ua = ''desktop''"
  by (simp add: isMobile_def)

lemma generateCacheKey_inject:
  "generateCacheKey url1 ua1 = generateCacheKey url2 ua2
     \<longleftrightarrow> url1 = url2 \<and> isMobile ua1 = isMobile ua2"
proof
  assume eq: "generateCacheKey url1 ua1 = generateCacheKey url2 ua2"
  then have "length (url1 @ '':'' @ isMobile ua1) = length (url2 @ '':'' @ isMobile ua2)"
    by (simp add: generateCacheKey_def)
  have "last (generateCacheKey url1 ua1) = last (generateCacheKey url2 ua2)"
    using eq by simp
  then have c: "isMobile ua1 = isMobile ua2"
    using isMobile_cases [of ua1] isMobile_cases [of ua2]
    by (auto simp: generateCacheKey_def)
  with eq have "url1 = url2"
    by (simp add: generateCacheKey_def)
  with c show "url1 = url2 \<and> isMobile ua1 = isMobile ua2" by simp
next
  assume "url1 = url2 \<and> isMobile ua1 = isMobile ua2"
  then show "generateCacheKey url1 ua1 = generateCacheKey url2 ua2"
    by (simp add: generateCacheKey_def)
qed

section \<open>Properties of responses, static files and the theme registry\<close>





lemma str_replace_prefix:
  "startsWith s p \<Longrightarrow> str_replace s p r = r @ drop (length p) s"
  by (cases s) (auto simp: startsWith_def)

lemma takeWhile_until: "\<forall>x \<in> set xs. P x \<Longrightarrow> \<not> P y \<Longrightarrow> takeWhile P (xs @ y # ys) = xs"
  by (induction xs) auto

lemma dropWhile_until: "\<forall>x \<in> set xs. P x \<Longrightarrow> \<not> P y \<Longrightarrow> dropWhile P (xs @ y # ys) = y # ys"
  by (induction xs) auto

lemma matchTheme_key:
  assumes "startsWith folder ''theme-''" and "CHR ''/'' \<notin> set folder"
  shows "orElse (matchTheme (''./'' @ folder @ ''/theme.json'')) []
           = drop (length ''theme-'') folder"
proof -
  define ns where "ns = drop (length ''theme-'') folder"
  have folder: "folder = ''theme-'' @ ns"
    unfolding ns_def using assms(1) by (metis append_take_drop_id startsWith_def)
  have ns: "\<forall>c \<in> set ns. c \<noteq> CHR ''/''"
    using assms(2) folder by auto
  have "orElse (matchTheme (''./'' @ folder @ ''/theme.json'')) [] = ns"
  proof (cases "ns = []")
    case True
    then show ?thesis
      by (simp add: folder matchThemeAt_def orElse_def)
  next
    case False
    have "matchThemeAt (''./theme-'' @ ns @ ''/theme.json'') = Some ns"
      using False takeWhile_until [OF ns, of "CHR ''/''" "''theme.json''"]
        dropWhile_until [OF ns, of "CHR ''/''" "''theme.json''"]
      by (simp add: matchThemeAt_def)
    then have "matchTheme (''./'' @ folder @ ''/theme.json'') = Some ns"
      by (simp add: folder)
    then show ?thesis
      using False by (simp add: orElse_def)
  qed
  then show ?thesis
    unfolding ns_def .
qed

lemma loadThemes_names:
  assumes "\<forall>p \<in> set ths. orElse (matchTheme (fst p)) [] = namespace (snd p)"
    and "\<forall>d \<in> set ds. startsWith (entryName d) ''theme-'' \<and> CHR ''/'' \<notin> set (entryName d)"
  shows "\<forall>p \<in> set (loadThemes e l ds ths). orElse (matchTheme (fst p)) [] = namespace (snd p)"
  using assms
proof (induction ds arbitrary: ths)
  case Nil
  then show ?case by simp
next
  case (Cons d ds)
  let ?key = "''./'' @ entryName d @ ''/theme.json''"
  have d: "startsWith (entryName d) ''theme-''" "CHR ''/'' \<notin> set (entryName d)"
    using Cons.prems(2) by simp_all
  have key: "orElse (matchTheme ?key) [] = str_replace (entryName d) ''theme-'' []"
    unfolding matchTheme_key [OF d] str_replace_prefix [OF d(1), of "[]"] by simp
  have step: "\<forall>p \<in> set (Map_set ths ?key t). orElse (matchTheme (fst p)) [] = namespace (snd p)"
    if "namespace t = str_replace (entryName d) ''theme-'' []" for t
    using set_Map_set [of ths ?key t] Cons.prems(1) key that by auto
  have "\<forall>p \<in> set (case themeJson d of
            Manifest themeData \<Rightarrow>
              if nullish themeData then ths
              else Map_set ths ?key
                     \<lparr>namespace = str_replace (entryName d) ''theme-'' [],
                      name = getProp themeData ''name'',
                      description = getProp themeData ''description'',
                      author = getProp themeData ''author'',
                      version = getProp themeData ''version'',
                      preview = interpolate (VITE_WEBSITE_URL e)
                                  @ toStr l (getProp themeData ''preview'')\<rparr>
          | _ \<Rightarrow> ths). orElse (matchTheme (fst p)) [] = namespace (snd p)"
  proof (cases "themeJson d")
    case (Manifest themeData)
    show ?thesis
    proof (cases "nullish themeData")
      case True
      then show ?thesis using Cons.prems(1) by (simp add: Manifest)
    next
      case False
      then show ?thesis
        unfolding Manifest manifest.case if_not_P [OF False]
        by (intro step) simp
    qed
  qed (use Cons.prems(1) in simp_all)
  then show ?case
    unfolding loadThemes.simps
    by (rule Cons.IH) (use Cons.prems(2) in simp)
qed

lemma themeExists_namespace:
  assumes "ths = discoverThemes e l entries"
    and "\<forall>d \<in> set entries. CHR ''/'' \<notin> set (entryName d)"
  shows "themeExists ths theme \<longleftrightarrow> (\<exists>p \<in> set ths. JStr (namespace (snd p)) = theme)"
proof -
  have "\<forall>p \<in> set ths. orElse (matchTheme (fst p)) [] = namespace (snd p)"
    unfolding assms(1) discoverThemes_def Let_def
    by (rule loadThemes_names) (use assms(2) in auto)
  then show ?thesis
    by (auto simp: themeExists_def list_ex_iff Let_def)
qed

section \<open>An accepted encoding occurs in the value\<close>

lemma str_includes_sublist: "str_includes s sub \<longleftrightarrow> sublist sub s"
proof (induction s)
  case Nil
  then show ?case by auto
next
  case (Cons c cs)
  have "take (length sub) (c # cs) = sub \<longleftrightarrow> prefix sub (c # cs)"
    by (metis append_eq_conv_conj prefix_def take_is_prefix)
  then show ?case
    using Cons.IH by (simp add: sublist_Cons_right)
qed

lemma splitOn_sublist: "element \<in> set (splitOn sep s) \<Longrightarrow> sublist element s"
proof (induction s arbitrary: element)
  case Nil
  then show ?case by simp
next
  case (Cons c cs)
  show ?case
  proof (cases "c = sep")
    case True
    then show ?thesis
      using Cons by (auto simp: sublist_Cons_right)
  next
    case False
    obtain x xs where sp: "splitOn sep cs = x # xs"
      by (cases "splitOn sep cs"; cases cs) (auto split: if_splits list.splits)
    from Cons.prems False sp have "element = c # x \<or> element \<in> set xs"
      by simp
    then show ?thesis
    proof
      assume e: "element = c # x"
      have "x \<in> set (splitOn sep cs)" by (simp add: sp)
      moreover have "prefix x cs"
        using sp
      proof (induction cs arbitrary: x xs)
        case Nil
        then show ?case by simp
      next
        case (Cons d ds)
        then show ?case
          by (cases "splitOn sep ds") (auto split: if_splits)
      qed
      ultimately show ?thesis
        by (simp add: e sublist_Cons_right)
    next
      assume "element \<in> set xs"
      then have "sublist element cs"
        using Cons.IH sp by simp
      then show ?thesis by (simp add: sublist_Cons_right)
    qed
  qed
qed

lemma trimSpaces_sublist: "sublist (trimSpaces s) s"
proof -
  have "sublist (dropWhile isSpace (rev (dropWhile isSpace s))) (rev (dropWhile isSpace s))"
    by simp
  then have "sublist (trimSpaces s) (dropWhile isSpace s)"
    by (simp add: trimSpaces_def sublist_rev_left)
  then show ?thesis
    using sublist_dropWhile sublist_order.order.trans by blast
qed

lemma specAccepted_includes:
  assumes "specAccepted acceptedEncodings coding"
  shows "str_includes acceptedEncodings coding"
proof -
  from assms obtain element where el: "element \<in> set (splitOn CHR '','' acceptedEncodings)"
    and c: "codingOf element = coding"
    by (auto simp: specAccepted_def list_ex_iff)
  have "sublist (codingOf element) element"
    unfolding codingOf_def
    using trimSpaces_sublist sublist_takeWhile sublist_order.order.trans by blast
  then have "sublist coding acceptedEncodings"
    using splitOn_sublist [OF el] c sublist_order.order.trans by blast
  then show ?thesis by (simp add: str_includes_sublist)
qed

section \<open>Properties of the lookup\<close>

text \<open>
  The lookup is a miss when the key has no entry or the age of its entry is at least
  the time-to-live, and only then; the callback sweeps before it looks up, unless the
  path has an extension.
\<close>

lemma pageCacheLookup_miss_iff:
  "pageCacheLookup pc key now = None \<longleftrightarrow>
     (case Map_get pc key of
        None \<Rightarrow> True
      | Some entry \<Rightarrow> now - timestamp entry \<ge> PAGE_CACHE_DURATION)"
  by (auto simp: pageCacheLookup_def isPageCacheValid_def split: option.split)

lemma cacheLookup_sweeps:
  "\<not> testExtension (orElse (url req) []) \<Longrightarrow>
     fst (cacheLookup req nowSweep nowLookup pc res) = cleanExpiredPageCache nowSweep pc"
  by (simp add: cacheLookup_def Let_def split: option.split)

section \<open>Store and lookup\<close>

text \<open>
  C3. For every cache key and every document, a store followed at once by a lookup,
  with the clock unchanged, is a hit, and the uncompressed variant of the entry found is
  the document stored.
\<close>

theorem store_then_lookup:
  "\<exists>entry. pageCacheLookup (pageCacheStore l pc cacheKey template now) cacheKey now = Some entry
     \<and> uncompressed (compressedVersions entry) = template
     \<and> html entry = template"
  by (simp add: pageCacheLookup_def pageCacheStore_def isPageCacheValid_def Map_get_Map_set
      PAGE_CACHE_DURATION_def Let_def)

section \<open>Lookup and expiry\<close>

text \<open>
  C1. Lookup is a miss exactly when the key has no entry or the age of the entry exceeds
  the time-to-live of 30 minutes. The code at the age that equals the time-to-live: the
  entry stored at the clock reading 0 is present at the reading 1800000, its age does
  not exceed the time-to-live, and \<open>isPageCacheValid\<close> is false, so the lookup is a miss;
  one millisecond earlier it is a hit. The sweep keeps this entry and the statistics
  count it as valid: both test \<open>age > PAGE_CACHE_DURATION\<close>, the lookup tests
  \<open>age < PAGE_CACHE_DURATION\<close>.
\<close>

theorem lookup_miss_at_ttl:
  "boundaryPageCache = pageCacheStore exampleLib [] ''/:desktop'' ''<html>home</html>'' 0
   \<and> Map_get boundaryPageCache ''/:desktop'' = Some boundaryEntry
   \<and> \<not> (1800000 - timestamp boundaryEntry > PAGE_CACHE_DURATION)
   \<and> isPageCacheValid boundaryPageCache ''/:desktop'' 1800000 = False
   \<and> pageCacheLookup boundaryPageCache ''/:desktop'' 1800000 = None
   \<and> isPageCacheValid boundaryPageCache ''/:desktop'' 1799999 = True
   \<and> cleanExpiredPageCache 1800000 boundaryPageCache = boundaryPageCache
   \<and> getCacheStats 1800000 boundaryPageCache = \<lparr>total = 1, valid = 1, expired = 0\<rparr>"
  by (simp add: boundaryPageCache_def boundaryEntry_def pageCacheStore_def exampleLib_def
      Map_get_def isPageCacheValid_def pageCacheLookup_def PAGE_CACHE_DURATION_def
      cleanExpiredPageCache_def getCacheStats_def Map_size_def)

text \<open>
  C10. An entry whose age equals the time-to-live is invalid for the lookup, which is a
  miss, while the sweep keeps it and the statistics count it as valid: with this entry
  the count of valid entries is one more than without it, the count of expired entries
  is the same.
\<close>

theorem boundary_age_entry:
  assumes "distinct (map fst pc)"
    and "pc = xs @ (key, entry) # ys"
    and "now - timestamp entry = PAGE_CACHE_DURATION"
  shows "\<not> isPageCacheValid pc key now
    \<and> pageCacheLookup pc key now = None
    \<and> Map_get (cleanExpiredPageCache now pc) key = Some entry
    \<and> valid (getCacheStats now pc) = valid (getCacheStats now (xs @ ys)) + 1
    \<and> expired (getCacheStats now pc) = expired (getCacheStats now (xs @ ys))"
proof -
  have mem: "(key, entry) \<in> set pc"
    by (simp add: assms(2))
  have get: "Map_get pc key = Some entry"
    using assms(1) mem by (rule Map_get_member)
  have invalid: "\<not> isPageCacheValid pc key now"
    by (simp add: isPageCacheValid_def get assms(3))
  then have miss: "pageCacheLookup pc key now = None"
    by (simp add: pageCacheLookup_def)
  have "(key, entry) \<in> set (cleanExpiredPageCache now pc)"
    using mem by (simp add: cleanExpiredPageCache_filter [OF assms(1)] assms(3))
  moreover have "distinct (map fst (cleanExpiredPageCache now pc))"
    using assms(1) by (simp add: cleanExpiredPageCache_filter distinct_map_filter)
  ultimately have kept: "Map_get (cleanExpiredPageCache now pc) key = Some entry"
    by (intro Map_get_member)
  have v: "valid (getCacheStats now pc) = valid (getCacheStats now (xs @ ys)) + 1"
    by (simp add: getCacheStats_def statsLoop_count assms(2,3))
  have x: "expired (getCacheStats now pc) = expired (getCacheStats now (xs @ ys))"
    by (simp add: getCacheStats_def statsLoop_count assms(2,3))
  from invalid miss kept v x show ?thesis by blast
qed

theorem boundary_age_entry_witness:
  "distinct (map fst boundaryPageCache)
   \<and> boundaryPageCache = [] @ (''/:desktop'', boundaryEntry) # []
   \<and> 1800000 - timestamp boundaryEntry = PAGE_CACHE_DURATION
   \<and> \<not> isPageCacheValid boundaryPageCache ''/:desktop'' 1800000
   \<and> pageCacheLookup boundaryPageCache ''/:desktop'' 1800000 = None
   \<and> Map_get (cleanExpiredPageCache 1800000 boundaryPageCache) ''/:desktop'' = Some boundaryEntry
   \<and> valid (getCacheStats 1800000 boundaryPageCache) = 1
   \<and> expired (getCacheStats 1800000 boundaryPageCache) = 0"
proof -
  have d: "distinct (map fst boundaryPageCache)"
    by (simp add: boundaryPageCache_def)
  have s: "boundaryPageCache = [] @ (''/:desktop'', boundaryEntry) # []"
    by (simp add: boundaryPageCache_def)
  have a: "1800000 - timestamp boundaryEntry = PAGE_CACHE_DURATION"
    by (simp add: boundaryEntry_def PAGE_CACHE_DURATION_def)
  have e: "getCacheStats 1800000 ([] @ []) = \<lparr>total = 0, valid = 0, expired = 0\<rparr>"
    by (simp add: getCacheStats_def Map_size_def)
  show ?thesis
    using boundary_age_entry [OF d s a] d s a e by simp
qed

section \<open>Clearing the cache\<close>

text \<open>
  C2, as stated: the clear operation returns a count equal to the number of entries.
  On a cache with two entries \<open>POST /cache/clear\<close> with the bearer token answers 200 with
  the JSON object of \<open>success\<close> and \<open>message\<close> and nothing else, the same response as
  for an empty cache; the count 2 goes to the console.
\<close>

theorem cache_clear_returns_no_count:
  "Map_size (pageCache exampleState) = 2
   \<and> Map_size (pageCache (exampleState\<lparr>pageCache := []\<rparr>)) = 0
   \<and> adminRoutes exampleEnv exampleLib FetchFails 0 (adminRequest ''POST'' ''/cache/clear'' [])
         exampleState newResponse
       = Some (exampleState\<lparr>pageCache := [], console := [PageCacheCleared 2]\<rparr>,
               \<lparr>statusCode = 200,
                resHeaders = [(''Content-Type'', ''application/json'')],
                body = Some (Json (JObj [(''success'', JBool True),
                                         (''message'', JStr ''Cache cleared successfully'')])),
                ended = True\<rparr>)
   \<and> snd (cacheClear exampleState newResponse)
       = snd (cacheClear (exampleState\<lparr>pageCache := []\<rparr>) newResponse)"
  by (simp add: adminRoutes_def adminRequest_def orElse_def authorized_def header_def
      exampleEnv_def interpolate_def cacheClear_def clearPageCache_def Map_size_def
      Map_clear_def exampleState_def examplePageCache_def pageCacheStore_def newResponse_def
      endWith_def setHeader_def setStatus_def)

text \<open>
  C2, amended. For every state, \<open>POST /cache/clear\<close> with the bearer token logs the number
  of entries that the page cache held, empties the page cache, so that every lookup
  after it is a miss, and answers with the JSON object of \<open>success\<close> and \<open>message\<close>.
\<close>

theorem cache_clear_logs_count:
  assumes "url req = Some ''/cache/clear''" and "reqMethod req = ''POST''"
    and "authorized e req"
  shows "\<exists>s' r. adminRoutes e l fetched now req s res = Some (s', r)
    \<and> console s' = console s @ [PageCacheCleared (length (pageCache s))]
    \<and> pageCache s' = []
    \<and> (\<forall>key now'. pageCacheLookup (pageCache s') key now' = None
          \<and> \<not> isPageCacheValid (pageCache s') key now')
    \<and> r = endWith (Some (Json (JObj [(''success'', JBool True),
                                      (''message'', JStr ''Cache cleared successfully'')])))
              (setHeader ''Content-Type'' ''application/json'' (setStatus 200 res))"
  using assms
  by (simp add: adminRoutes_def orElse_def cacheClear_def clearPageCache_def Map_size_def
      Map_clear_def Let_def pageCacheLookup_def isPageCacheValid_def Map_get_def)

theorem cache_clear_logs_count_witness:
  "url (adminRequest ''POST'' ''/cache/clear'' []) = Some ''/cache/clear''
   \<and> reqMethod (adminRequest ''POST'' ''/cache/clear'' []) = ''POST''
   \<and> authorized exampleEnv (adminRequest ''POST'' ''/cache/clear'' [])
   \<and> length (pageCache exampleState) = 2
   \<and> pageCacheLookup (pageCache exampleState) ''/:desktop'' 5000 \<noteq> None
   \<and> (\<exists>s' r. adminRoutes exampleEnv exampleLib FetchFails 5000
                 (adminRequest ''POST'' ''/cache/clear'' []) exampleState newResponse = Some (s', r)
         \<and> console s' = [PageCacheCleared 2]
         \<and> pageCacheLookup (pageCache s') ''/:desktop'' 5000 = None
         \<and> statusCode r = 200)"
proof -
  have u: "url (adminRequest ''POST'' ''/cache/clear'' []) = Some ''/cache/clear''"
    and m: "reqMethod (adminRequest ''POST'' ''/cache/clear'' []) = ''POST''"
    by (simp_all add: adminRequest_def)
  have a: "authorized exampleEnv (adminRequest ''POST'' ''/cache/clear'' [])"
    by (simp add: authorized_def adminRequest_def exampleEnv_def header_def orElse_def
        interpolate_def)
  have n: "length (pageCache exampleState) = 2"
    by (simp add: exampleState_def examplePageCache_def pageCacheStore_def)
  have c: "console exampleState = []"
    by (simp add: exampleState_def)
  have h: "pageCacheLookup (pageCache exampleState) ''/:desktop'' 5000 \<noteq> None"
    by (simp add: exampleState_def examplePageCache_def pageCacheStore_def pageCacheLookup_def
        isPageCacheValid_def Map_get_def PAGE_CACHE_DURATION_def)
  obtain s' r where
    "adminRoutes exampleEnv exampleLib FetchFails 5000
       (adminRequest ''POST'' ''/cache/clear'' []) exampleState newResponse = Some (s', r)"
    and "console s' = console exampleState @ [PageCacheCleared (length (pageCache exampleState))]"
    and "\<forall>key now'. pageCacheLookup (pageCache s') key now' = None
          \<and> \<not> isPageCacheValid (pageCache s') key now'"
    and "r = endWith (Some (Json (JObj [(''success'', JBool True),
                                      (''message'', JStr ''Cache cleared successfully'')])))
              (setHeader ''Content-Type'' ''application/json'' (setStatus 200 newResponse))"
    using cache_clear_logs_count [OF u m a, of exampleLib FetchFails 5000 exampleState newResponse]
    by blast
  then have "adminRoutes exampleEnv exampleLib FetchFails 5000
                 (adminRequest ''POST'' ''/cache/clear'' []) exampleState newResponse = Some (s', r)
         \<and> console s' = [PageCacheCleared 2]
         \<and> pageCacheLookup (pageCache s') ''/:desktop'' 5000 = None
         \<and> statusCode r = 200"
    using n c by (simp add: endWith_def setHeader_def setStatus_def)
  then show ?thesis
    using u m a n h by blast
qed

section \<open>Statistics\<close>

text \<open>
  C8. The statistics give the number of entries as \<open>total\<close>, count as \<open>expired\<close> the entries
  whose age at the query exceeds the time-to-live and as \<open>valid\<close> all the others, so that
  every entry is counted once and \<open>valid + expired = total\<close>; the route \<open>GET /cache/stats\<close>
  returns the state as it was, with or without the bearer token.
\<close>

theorem getCacheStats_classifies:
  assumes "url req = Some ''/cache/stats''" and "reqMethod req = ''GET''"
  shows "total (getCacheStats now (pageCache s)) = length (pageCache s)
    \<and> valid (getCacheStats now (pageCache s)) =
        length (filter (\<lambda>(key, entry). \<not> now - timestamp entry > PAGE_CACHE_DURATION) (pageCache s))
    \<and> expired (getCacheStats now (pageCache s)) =
        length (filter (\<lambda>(key, entry). now - timestamp entry > PAGE_CACHE_DURATION) (pageCache s))
    \<and> valid (getCacheStats now (pageCache s)) + expired (getCacheStats now (pageCache s))
        = total (getCacheStats now (pageCache s))
    \<and> adminRoutes e l fetched now req s res =
        Some (s, if authorized e req
                 then endWith (Some (Json (cacheStatsJson (getCacheStats now (pageCache s)))))
                        (setHeader ''Content-Type'' ''application/json'' (setStatus 200 res))
                 else unauthorized res)"
proof -
  let ?pc = "pageCache s"
  have t: "total (getCacheStats now ?pc) = length ?pc"
    by (simp add: getCacheStats_def statsLoop_count Map_size_def)
  have v: "valid (getCacheStats now ?pc) =
        length (filter (\<lambda>(key, entry). \<not> now - timestamp entry > PAGE_CACHE_DURATION) ?pc)"
    by (simp add: getCacheStats_def statsLoop_count case_prod_unfold)
  have x: "expired (getCacheStats now ?pc) =
        length (filter (\<lambda>(key, entry). now - timestamp entry > PAGE_CACHE_DURATION) ?pc)"
    by (simp add: getCacheStats_def statsLoop_count case_prod_unfold)
  have sum: "valid (getCacheStats now ?pc) + expired (getCacheStats now ?pc)
        = total (getCacheStats now ?pc)"
    unfolding t v x
    using sum_length_filter_compl [of "\<lambda>(key, entry). now - timestamp entry > PAGE_CACHE_DURATION" ?pc]
    by (simp add: case_prod_unfold add.commute)
  have r: "adminRoutes e l fetched now req s res =
        Some (s, if authorized e req
                 then endWith (Some (Json (cacheStatsJson (getCacheStats now (pageCache s)))))
                        (setHeader ''Content-Type'' ''application/json'' (setStatus 200 res))
                 else unauthorized res)"
    using assms by (simp add: adminRoutes_def orElse_def cacheStatsRoute_def Let_def)
  from t v x sum r show ?thesis by blast
qed

theorem getCacheStats_classifies_witness:
  "url (adminRequest ''GET'' ''/cache/stats'' []) = Some ''/cache/stats''
   \<and> reqMethod (adminRequest ''GET'' ''/cache/stats'' []) = ''GET''
   \<and> getCacheStats 1800001 examplePageCache = \<lparr>total = 2, valid = 1, expired = 1\<rparr>
   \<and> (\<exists>r. adminRoutes exampleEnv exampleLib FetchFails 1800001
             (adminRequest ''GET'' ''/cache/stats'' []) exampleState newResponse
           = Some (exampleState, r)
        \<and> body r = Some (Json (JObj [(''total'', JNum 2), (''valid'', JNum 1), (''expired'', JNum 1)])))"
proof -
  have u: "url (adminRequest ''GET'' ''/cache/stats'' []) = Some ''/cache/stats''"
    and m: "reqMethod (adminRequest ''GET'' ''/cache/stats'' []) = ''GET''"
    by (simp_all add: adminRequest_def)
  have g: "getCacheStats 1800001 examplePageCache = \<lparr>total = 2, valid = 1, expired = 1\<rparr>"
    by (simp add: getCacheStats_def examplePageCache_def pageCacheStore_def Map_size_def
        PAGE_CACHE_DURATION_def)
  have a: "authorized exampleEnv (adminRequest ''GET'' ''/cache/stats'' [])"
    by (simp add: authorized_def adminRequest_def exampleEnv_def header_def orElse_def
        interpolate_def)
  have p: "pageCache exampleState = examplePageCache"
    by (simp add: exampleState_def)
  show ?thesis
    using getCacheStats_classifies [OF u m, of 1800001 exampleState exampleEnv exampleLib
        FetchFails newResponse] u m g a p
    by (simp add: cacheStatsJson_def endWith_def)
qed

section \<open>Every entry has its three variants\<close>

text \<open>
  C4. A store writes, under its key, an entry whose three variants come from the one
  rendered document: the document itself, its gzip compression and its brotli
  compression. So in every page cache that the server can reach, every entry has its
  uncompressed variant, equal to its document, and both compressed variants of it.
\<close>

theorem store_writes_all_variants:
  "Map_get (pageCacheStore l pc0 cacheKey template now) cacheKey =
     Some \<lparr>html = template,
           compressedVersions =
             \<lparr>gzip = Some (gzipSync l (Str template)),
              br = Some (brotliCompressSync l (Str template)),
              uncompressed = template\<rparr>,
           timestamp = now, headers = responseHeaders\<rparr>
   \<and> (reachable l pc \<longrightarrow> (\<forall>(key, entry) \<in> set pc.
         uncompressed (compressedVersions entry) = html entry
         \<and> gzip (compressedVersions entry) = Some (gzipSync l (Str (html entry)))
         \<and> br (compressedVersions entry) = Some (brotliCompressSync l (Str (html entry)))))"
proof -
  let ?ok = "\<lambda>entry. uncompressed (compressedVersions entry) = html entry
         \<and> gzip (compressedVersions entry) = Some (gzipSync l (Str (html entry)))
         \<and> br (compressedVersions entry) = Some (brotliCompressSync l (Str (html entry)))"
  have inv: "\<forall>p \<in> set pc. ?ok (snd p)" if "reachable l pc"
    using that
  proof (induction rule: reachable.induct)
    case initial
    then show ?case by simp
  next
    case (lookup pc req nowSweep nowLookup res)
    then show ?case
      using fst_cacheLookup [of req nowSweep nowLookup pc res]
        set_cleanExpiredPageCache [of nowSweep pc]
      by auto
  next
    case (render pc req cacheKey outcome now res)
    show ?case
    proof (cases outcome)
      case (Rendered template)
      have "set (fst (renderAndStore l req cacheKey outcome now pc res))
              \<subseteq> insert (cacheKey,
                    \<lparr>html = template,
                     compressedVersions =
                       \<lparr>gzip = Some (gzipSync l (Str template)),
                        br = Some (brotliCompressSync l (Str template)),
                        uncompressed = template\<rparr>,
                     timestamp = now, headers = responseHeaders\<rparr>) (set pc)"
        using set_Map_set by (simp add: fst_renderAndStore Rendered pageCacheStore_def)
      then show ?thesis using render.IH by auto
    qed (use render.IH in \<open>simp_all add: fst_renderAndStore\<close>)
  next
    case (clear pc)
    then show ?case by (simp add: clearPageCache_def Map_clear_def)
  qed
  have "Map_get (pageCacheStore l pc0 cacheKey template now) cacheKey =
     Some \<lparr>html = template,
           compressedVersions =
             \<lparr>gzip = Some (gzipSync l (Str template)),
              br = Some (brotliCompressSync l (Str template)),
              uncompressed = template\<rparr>,
           timestamp = now, headers = responseHeaders\<rparr>"
    by (simp add: pageCacheStore_def Map_get_Map_set)
  moreover have "reachable l pc \<longrightarrow> (\<forall>(key, entry) \<in> set pc. ?ok entry)"
    using inv by (auto simp: case_prod_unfold)
  ultimately show ?thesis by blast
qed

theorem store_writes_all_variants_witness:
  "reachable exampleLib examplePageCache
   \<and> (''/:desktop'', boundaryEntry) \<in> set examplePageCache
   \<and> uncompressed (compressedVersions boundaryEntry) = ''<html>home</html>''
   \<and> html boundaryEntry = ''<html>home</html>''
   \<and> gzip (compressedVersions boundaryEntry) = Some [31, 139, 8]
   \<and> br (compressedVersions boundaryEntry) = Some [27]"
proof -
  have r: "reachable exampleLib examplePageCache"
    unfolding examplePageCache_def
    by (intro reachable_store reachable.initial)
  have m: "(''/:desktop'', boundaryEntry) \<in> set examplePageCache"
    by (simp add: examplePageCache_def pageCacheStore_def boundaryEntry_def exampleLib_def)
  have h: "html boundaryEntry = ''<html>home</html>''"
    by (simp add: boundaryEntry_def)
  have g: "gzipSync exampleLib (Str ''<html>home</html>'') = [31, 139, 8]"
    "brotliCompressSync exampleLib (Str ''<html>home</html>'') = [27]"
    by (simp_all add: exampleLib_def)
  from store_writes_all_variants [of exampleLib "[]" "[]" "[]" 0 examplePageCache] r
  have "\<forall>(key, entry) \<in> set examplePageCache.
         uncompressed (compressedVersions entry) = html entry
         \<and> gzip (compressedVersions entry) = Some (gzipSync exampleLib (Str (html entry)))
         \<and> br (compressedVersions entry) = Some (brotliCompressSync exampleLib (Str (html entry)))"
    by blast
  with m have "uncompressed (compressedVersions boundaryEntry) = html boundaryEntry
         \<and> gzip (compressedVersions boundaryEntry)
             = Some (gzipSync exampleLib (Str (html boundaryEntry)))
         \<and> br (compressedVersions boundaryEntry)
             = Some (brotliCompressSync exampleLib (Str (html boundaryEntry)))"
    by blast
  with r m h g show ?thesis by simp
qed

section \<open>Compression Negotiator\<close>

text \<open>
  C5, as stated: for every accepted-encodings value brotli is selected if it is
  accepted, otherwise gzip if it is accepted, otherwise the payload goes out
  uncompressed. The value \<open>gzip;q=1.0, br;q=0\<close> accepts gzip and refuses brotli, and
  both \<open>compressHtml\<close> and \<open>compressFile\<close> select brotli; the value \<open>abracadabra\<close>
  accepts neither, and brotli is selected.
\<close>

theorem compression_accepted_counterexample:
  "\<not> specAccepted ''gzip;q=1.0, br;q=0'' ''br''
   \<and> specAccepted ''gzip;q=1.0, br;q=0'' ''gzip''
   \<and> compressHtml exampleLib ''<html>home</html>'' (Some ''gzip;q=1.0, br;q=0'')
       = \<lparr>data = Buf [27], encoding = Some ''br''\<rparr>
   \<and> compressFile exampleLib [104, 105] (Some ''gzip;q=1.0, br;q=0'')
       = \<lparr>data = Buf [27], encoding = Some ''br''\<rparr>
   \<and> \<not> specAccepted ''abracadabra'' ''br''
   \<and> \<not> specAccepted ''abracadabra'' ''gzip''
   \<and> compressHtml exampleLib ''<html>home</html>'' (Some ''abracadabra'')
       = \<lparr>data = Buf [27], encoding = Some ''br''\<rparr>"
  by (simp add: specAccepted_def codingOf_def weightOf_def trimSpaces_def isSpace_def
      zeroWeights_def compressHtml_def compressFile_def exampleLib_def)

text \<open>
  C5, amended. The encoding chosen depends on the accepted-encodings value alone, in a
  fixed order: brotli when the name \<open>br\<close> occurs anywhere in the value, else gzip when
  the name \<open>gzip\<close> occurs anywhere in it, else the payload goes out as it is with no
  encoding marked; \<open>compressHtml\<close> and \<open>compressFile\<close> choose alike. The name of an
  accepted encoding occurs in the value, so brotli is selected whenever it is accepted,
  and gzip whenever it is accepted and \<open>br\<close> does not occur.
\<close>

theorem compression_priority:
  "(encoding (compressHtml l template (Some acceptEncoding)) = Some ''br'')
      = str_includes acceptEncoding ''br''
   \<and> (encoding (compressHtml l template (Some acceptEncoding)) = Some ''gzip'')
      = (\<not> str_includes acceptEncoding ''br'' \<and> str_includes acceptEncoding ''gzip'')
   \<and> (encoding (compressHtml l template (Some acceptEncoding)) = None)
      = (\<not> str_includes acceptEncoding ''br'' \<and> \<not> str_includes acceptEncoding ''gzip'')
   \<and> data (compressHtml l template (Some acceptEncoding))
      = (if str_includes acceptEncoding ''br'' then Buf (brotliCompressSync l (Str template))
         else if str_includes acceptEncoding ''gzip'' then Buf (gzipSync l (Str template))
         else Str template)
   \<and> data (compressFile l bytes (Some acceptEncoding))
      = (if str_includes acceptEncoding ''br'' then Buf (brotliCompressSync l (Buf bytes))
         else if str_includes acceptEncoding ''gzip'' then Buf (gzipSync l (Buf bytes))
         else Buf bytes)
   \<and> encoding (compressFile l' bytes (Some acceptEncoding))
      = encoding (compressHtml l template (Some acceptEncoding))
   \<and> compressHtml l template None = \<lparr>data = Str template, encoding = None\<rparr>
   \<and> compressFile l bytes None = \<lparr>data = Buf bytes, encoding = None\<rparr>
   \<and> (specAccepted acceptEncoding ''br'' \<longrightarrow>
        encoding (compressHtml l template (Some acceptEncoding)) = Some ''br'')
   \<and> (specAccepted acceptEncoding ''gzip'' \<and> \<not> str_includes acceptEncoding ''br'' \<longrightarrow>
        encoding (compressHtml l template (Some acceptEncoding)) = Some ''gzip'')"
  using specAccepted_includes [of acceptEncoding "''br''"]
    specAccepted_includes [of acceptEncoding "''gzip''"]
  by (simp add: compressHtml_def compressFile_def)

theorem compression_priority_witness:
  "specAccepted ''gzip, deflate, br'' ''br''
   \<and> str_includes ''gzip, deflate, br'' ''br''
   \<and> compressHtml exampleLib ''<html>home</html>'' (Some ''gzip, deflate, br'')
       = \<lparr>data = Buf [27], encoding = Some ''br''\<rparr>
   \<and> specAccepted ''gzip, deflate'' ''gzip''
   \<and> \<not> str_includes ''gzip, deflate'' ''br'' \<and> str_includes ''gzip, deflate'' ''gzip''
   \<and> compressHtml exampleLib ''<html>home</html>'' (Some ''gzip, deflate'')
       = \<lparr>data = Buf [31, 139, 8], encoding = Some ''gzip''\<rparr>
   \<and> \<not> str_includes ''identity'' ''br'' \<and> \<not> str_includes ''identity'' ''gzip''
   \<and> compressHtml exampleLib ''<html>home</html>'' (Some ''identity'')
       = \<lparr>data = Str ''<html>home</html>'', encoding = None\<rparr>
   \<and> compressFile exampleLib [104, 105] (Some ''identity'')
       = \<lparr>data = Buf [104, 105], encoding = None\<rparr>"
proof -
  have s: "specAccepted ''gzip, deflate, br'' ''br''" "specAccepted ''gzip, deflate'' ''gzip''"
    by (simp_all add: specAccepted_def codingOf_def weightOf_def trimSpaces_def isSpace_def
        zeroWeights_def)
  have a: "str_includes ''gzip, deflate, br'' ''br''"
    and b: "\<not> str_includes ''gzip, deflate'' ''br''" "str_includes ''gzip, deflate'' ''gzip''"
    and c: "\<not> str_includes ''identity'' ''br''" "\<not> str_includes ''identity'' ''gzip''"
    by simp_all
  have g: "brotliCompressSync exampleLib (Str ''<html>home</html>'') = [27]"
    "gzipSync exampleLib (Str ''<html>home</html>'') = [31, 139, 8]"
    by (simp_all add: exampleLib_def)
  have eq: "x = \<lparr>data = d, encoding = e\<rparr>" if "data x = d" and "encoding x = e"
    for x :: compressed and d e
    using that by simp
  note t1 = compression_priority [where l = exampleLib and template = "''<html>home</html>''"
      and acceptEncoding = "''gzip, deflate, br''" and bytes = "[104, 105]" and l' = exampleLib]
  note t2 = compression_priority [where l = exampleLib and template = "''<html>home</html>''"
      and acceptEncoding = "''gzip, deflate''" and bytes = "[104, 105]" and l' = exampleLib]
  note t3 = compression_priority [where l = exampleLib and template = "''<html>home</html>''"
      and acceptEncoding = "''identity''" and bytes = "[104, 105]" and l' = exampleLib]
  have r1: "compressHtml exampleLib ''<html>home</html>'' (Some ''gzip, deflate, br'')
       = \<lparr>data = Buf [27], encoding = Some ''br''\<rparr>"
    using t1 s(1) a g by (intro eq) simp_all
  have r2: "compressHtml exampleLib ''<html>home</html>'' (Some ''gzip, deflate'')
       = \<lparr>data = Buf [31, 139, 8], encoding = Some ''gzip''\<rparr>"
    using t2 s(2) b g by (intro eq) simp_all
  have r3: "compressHtml exampleLib ''<html>home</html>'' (Some ''identity'')
       = \<lparr>data = Str ''<html>home</html>'', encoding = None\<rparr>"
    using t3 c by (intro eq) simp_all
  have r4: "compressFile exampleLib [104, 105] (Some ''identity'')
       = \<lparr>data = Buf [104, 105], encoding = None\<rparr>"
    using t3 c by (intro eq) simp_all
  from s a b c r1 r2 r3 r4 show ?thesis by blast
qed

section \<open>Cache key\<close>

text \<open>
  C6. The cache key is the route, a colon and the device class, which is \<open>mobile\<close> or
  \<open>desktop\<close>: the same route and the same class give the same key, and two keys are
  equal only then, so for one route the mobile key and the desktop key differ, and a
  store under one of them leaves the lookup of the other as it was.
\<close>

theorem cache_key_device_class:
  "generateCacheKey url' ua = url' @ '':'' @ isMobile ua
   \<and> (isMobile ua = ''mobile'' \<or> isMobile ua = ''desktop'')
   \<and> (generateCacheKey url' ua = generateCacheKey url2 ua2
        \<longleftrightarrow> url' = url2 \<and> isMobile ua = isMobile ua2)
   \<and> (isMobile ua \<noteq> isMobile ua2 \<longrightarrow>
        generateCacheKey url' ua \<noteq> generateCacheKey url' ua2
        \<and> pageCacheLookup (pageCacheStore l pc (generateCacheKey url' ua) template now)
             (generateCacheKey url' ua2) now'
           = pageCacheLookup pc (generateCacheKey url' ua2) now')"
proof -
  have "pageCacheLookup (pageCacheStore l pc k template now) k2 now' = pageCacheLookup pc k2 now'"
    if "k \<noteq> k2" for k k2
    using that
    by (simp add: pageCacheLookup_def pageCacheStore_def isPageCacheValid_def Map_get_Map_set)
  then show ?thesis
    using generateCacheKey_inject [of url' ua url2 ua2] generateCacheKey_inject [of url' ua url' ua2]
      isMobile_cases [of ua]
    by (simp add: generateCacheKey_def)
qed

theorem cache_key_device_class_witness:
  "isMobile (Some iphoneUserAgent) \<noteq> isMobile (Some desktopUserAgent)
   \<and> generateCacheKey ''/post/hello'' (Some iphoneUserAgent) = ''/post/hello:mobile''
   \<and> generateCacheKey ''/post/hello'' (Some desktopUserAgent) = ''/post/hello:desktop''
   \<and> generateCacheKey ''/post/hello'' None = ''/post/hello:desktop''
   \<and> generateCacheKey ''/post/hello'' (Some iphoneUserAgent)
        \<noteq> generateCacheKey ''/post/hello'' (Some desktopUserAgent)
   \<and> pageCacheLookup
        (pageCacheStore exampleLib [] (generateCacheKey ''/post/hello'' (Some iphoneUserAgent))
           ''<html>hello</html>'' 0)
        (generateCacheKey ''/post/hello'' (Some desktopUserAgent)) 0 = None"
proof -
  have m: "isMobile (Some iphoneUserAgent) = ''mobile''"
    by code_simp
  have d: "isMobile (Some desktopUserAgent) = ''desktop''"
    by code_simp
  have n: "isMobile None = ''desktop''"
    by (simp add: isMobile_def)
  have ne: "isMobile (Some iphoneUserAgent) \<noteq> isMobile (Some desktopUserAgent)"
    by (simp add: m d)
  have e: "pageCacheLookup [] (generateCacheKey ''/post/hello'' (Some desktopUserAgent)) 0 = None"
    by (simp add: pageCacheLookup_def isPageCacheValid_def Map_get_def)
  have k: "generateCacheKey ''/post/hello'' (Some desktopUserAgent) = ''/post/hello:desktop''"
    "generateCacheKey ''/post/hello'' None = ''/post/hello:desktop''"
    by (simp_all add: generateCacheKey_def d n)
  show ?thesis
    using cache_key_device_class [of "''/post/hello''" "Some iphoneUserAgent" "''/post/hello''"
        "Some desktopUserAgent" exampleLib "[]" "''<html>hello</html>''" 0 0]
      m ne e k
    by auto
qed

section \<open>Conditional requests for static files\<close>



section \<open>Theme change requests that are rejected\<close>

text \<open>
  C9. \<open>POST /set-thema\<close> with the bearer token, on a registry that \<open>bootstrap\<close> built from a
  directory listing: a body that does not parse, or parses to \<open>null\<close>, or has no \<open>theme\<close>
  (or a falsy one) is answered 400; a body whose \<open>theme\<close> is not the namespace of a
  registered theme is answered 404. In each of these cases the state is returned as it
  was: no restart is scheduled, and the registry, the settings store and the caches are
  unchanged.
\<close>

theorem set_thema_rejections:
  assumes "url req = Some ''/set-thema''" and "reqMethod req = ''POST''"
    and "authorized e req"
    and "themes s = discoverThemes e0 l0 entries"
    and "\<forall>d \<in> set entries. CHR ''/'' \<notin> set (entryName d)"
  shows "(JSON_parse l (reqBody req) = None \<longrightarrow>
            adminRoutes e l fetched now req s res = Some (s, invalidRequestBody res))
    \<and> (\<forall>parsed. JSON_parse l (reqBody req) = Some parsed \<longrightarrow>
          (nullish parsed \<longrightarrow>
             adminRoutes e l fetched now req s res = Some (s, invalidRequestBody res))
        \<and> (\<not> nullish parsed \<and> \<not> truthy (getProp parsed ''theme'') \<longrightarrow>
             adminRoutes e l fetched now req s res =
               Some (s, endWith
                          (Some (Json (JObj [(''success'', JBool False),
                                             (''error'', JStr ''Theme name is required'')])))
                          (setHeader ''Content-Type'' ''application/json'' (setStatus 400 res))))
        \<and> (\<not> nullish parsed \<and> truthy (getProp parsed ''theme'')
             \<and> (\<forall>p \<in> set (themes s). JStr (namespace (snd p)) \<noteq> getProp parsed ''theme'') \<longrightarrow>
             adminRoutes e l fetched now req s res =
               Some (s, endWith (Some (Data (Str ''Theme not found'')))
                          (setHeader ''Content-Type'' ''text/plain'' (setStatus 404 res)))))
    \<and> statusCode (invalidRequestBody res) = 400"
proof -
  have route: "adminRoutes e l fetched now req s res
                 = Some (setThema l fetched (reqBody req) s res)"
    using assms(1-3) by (simp add: adminRoutes_def orElse_def)
  have ex: "themeExists (themes s) theme \<longleftrightarrow> (\<exists>p \<in> set (themes s). JStr (namespace (snd p)) = theme)"
    for theme
    using themeExists_namespace [OF assms(4,5)] .
  show ?thesis
    unfolding route
    by (auto simp: setThema_def ex Let_def invalidRequestBody_def endWith_def setHeader_def
        setStatus_def)
qed

theorem set_thema_rejections_witness:
  "url (adminRequest ''POST'' ''/set-thema'' unknownThemeBody) = Some ''/set-thema''
   \<and> reqMethod (adminRequest ''POST'' ''/set-thema'' unknownThemeBody) = ''POST''
   \<and> authorized exampleEnv (adminRequest ''POST'' ''/set-thema'' unknownThemeBody)
   \<and> themes exampleState = discoverThemes exampleEnv exampleLib exampleDir
   \<and> list_all (\<lambda>d. CHR ''/'' \<notin> set (entryName d)) exampleDir
   \<and> map (\<lambda>p. namespace (snd p)) (themes exampleState) = [''default'']
   \<and> adminRoutes exampleEnv exampleLib (Settings []) 0
        (adminRequest ''POST'' ''/set-thema'' unknownThemeBody) exampleState newResponse
       = Some (exampleState,
               \<lparr>statusCode = 404, resHeaders = [(''Content-Type'', ''text/plain'')],
                body = Some (Data (Str ''Theme not found'')), ended = True\<rparr>)
   \<and> restartTimers exampleState = []
   \<and> (\<exists>r. adminRoutes exampleEnv exampleLib (Settings []) 0
              (adminRequest ''POST'' ''/set-thema'' ''{}'') exampleState newResponse
            = Some (exampleState, r) \<and> statusCode r = 400)
   \<and> (\<exists>r. adminRoutes exampleEnv exampleLib (Settings []) 0
              (adminRequest ''POST'' ''/set-thema'' ''theme=default'') exampleState newResponse
            = Some (exampleState, r) \<and> statusCode r = 400)
   \<and> (\<exists>s' r. adminRoutes exampleEnv exampleLib (Settings []) 0
              (adminRequest ''POST'' ''/set-thema'' knownThemeBody) exampleState newResponse
            = Some (s', r) \<and> statusCode r = 200 \<and> restartTimers s' = [JStr ''default''])"
proof -
  let ?req = "\<lambda>b. adminRequest ''POST'' ''/set-thema'' b"
  have u: "url (?req b) = Some ''/set-thema''" and m: "reqMethod (?req b) = ''POST''"
    and bd: "reqBody (?req b) = b" for b
    by (simp_all add: adminRequest_def)
  have a: "authorized exampleEnv (?req b)" for b
    by (simp add: authorized_def adminRequest_def exampleEnv_def header_def orElse_def
        interpolate_def)
  have t: "themes exampleState = discoverThemes exampleEnv exampleLib exampleDir"
    by (simp add: exampleState_def)
  have d: "\<forall>d \<in> set exampleDir. CHR ''/'' \<notin> set (entryName d)"
    by (simp add: exampleDir_def)
  have ns: "map (\<lambda>p. namespace (snd p)) (themes exampleState) = [''default'']"
    by (simp add: t discoverThemes_def exampleDir_def startsWith_def nullish_def)
  have rt: "restartTimers exampleState = []"
    by (simp add: exampleState_def)
  have p1: "JSON_parse exampleLib unknownThemeBody
              = Some (JObj [(''theme'', JStr ''unknown-namespace'')])"
    and p2: "JSON_parse exampleLib ''{}'' = Some (JObj [])"
    and p3: "JSON_parse exampleLib ''theme=default'' = None"
    and p4: "JSON_parse exampleLib knownThemeBody = Some (JObj [(''theme'', JStr ''default'')])"
    by (simp_all add: exampleLib_def exampleParse_def unknownThemeBody_def knownThemeBody_def)
  have absent: "\<forall>p \<in> set (themes exampleState).
      JStr (namespace (snd p)) \<noteq> getProp (JObj [(''theme'', JStr ''unknown-namespace'')]) ''theme''"
  proof
    fix p assume "p \<in> set (themes exampleState)"
    then have "namespace (snd p) \<in> set (map (\<lambda>p. namespace (snd p)) (themes exampleState))"
      by (simp add: image_iff) blast
    then show "JStr (namespace (snd p))
        \<noteq> getProp (JObj [(''theme'', JStr ''unknown-namespace'')]) ''theme''"
      unfolding ns by (simp add: getProp_def)
  qed
  have inst: "(JSON_parse exampleLib b = None \<longrightarrow>
            adminRoutes exampleEnv exampleLib (Settings []) 0 (?req b) exampleState newResponse
              = Some (exampleState, invalidRequestBody newResponse))
    \<and> (\<forall>parsed. JSON_parse exampleLib b = Some parsed \<longrightarrow>
          (nullish parsed \<longrightarrow>
             adminRoutes exampleEnv exampleLib (Settings []) 0 (?req b) exampleState newResponse
               = Some (exampleState, invalidRequestBody newResponse))
        \<and> (\<not> nullish parsed \<and> \<not> truthy (getProp parsed ''theme'') \<longrightarrow>
             adminRoutes exampleEnv exampleLib (Settings []) 0 (?req b) exampleState newResponse =
               Some (exampleState, endWith
                          (Some (Json (JObj [(''success'', JBool False),
                                             (''error'', JStr ''Theme name is required'')])))
                          (setHeader ''Content-Type'' ''application/json''
                            (setStatus 400 newResponse))))
        \<and> (\<not> nullish parsed \<and> truthy (getProp parsed ''theme'')
             \<and> (\<forall>p \<in> set (themes exampleState).
                    JStr (namespace (snd p)) \<noteq> getProp parsed ''theme'') \<longrightarrow>
             adminRoutes exampleEnv exampleLib (Settings []) 0 (?req b) exampleState newResponse =
               Some (exampleState, endWith (Some (Data (Str ''Theme not found'')))
                          (setHeader ''Content-Type'' ''text/plain'' (setStatus 404 newResponse)))))
    \<and> statusCode (invalidRequestBody newResponse) = 400" for b
    using set_thema_rejections [where req = "?req b" and l = exampleLib
        and fetched = "Settings []" and now = 0 and res = newResponse and s = exampleState
        and e = exampleEnv, OF u m a t d, unfolded bd] .
  have r1: "adminRoutes exampleEnv exampleLib (Settings []) 0 (?req unknownThemeBody)
              exampleState newResponse
       = Some (exampleState,
               \<lparr>statusCode = 404, resHeaders = [(''Content-Type'', ''text/plain'')],
                body = Some (Data (Str ''Theme not found'')), ended = True\<rparr>)"
    using inst [of unknownThemeBody] absent
    by (simp add: p1 nullish_def getProp_def endWith_def setHeader_def setStatus_def
        newResponse_def)
  have r2: "\<exists>r. adminRoutes exampleEnv exampleLib (Settings []) 0 (?req ''{}'')
              exampleState newResponse = Some (exampleState, r) \<and> statusCode r = 400"
    using inst [of "''{}''"]
    by (simp add: p2 nullish_def getProp_def endWith_def setHeader_def setStatus_def)
  have r3: "\<exists>r. adminRoutes exampleEnv exampleLib (Settings []) 0 (?req ''theme=default'')
              exampleState newResponse = Some (exampleState, r) \<and> statusCode r = 400"
    using inst [of "''theme=default''"]
    by (simp add: p3)
  have ex: "themeExists (themes exampleState) (JStr ''default'')"
    by (simp add: t discoverThemes_def exampleDir_def startsWith_def nullish_def
        themeExists_def matchThemeAt_def orElse_def)
  have r4: "\<exists>s' r. adminRoutes exampleEnv exampleLib (Settings []) 0 (?req knownThemeBody)
              exampleState newResponse = Some (s', r) \<and> statusCode r = 200
              \<and> restartTimers s' = [JStr ''default'']"
    using ex rt
    by (simp add: adminRoutes_def u m a bd orElse_def setThema_def p4 nullish_def getProp_def
        endWith_def setHeader_def setStatus_def Let_def)
  have d': "list_all (\<lambda>d. CHR ''/'' \<notin> set (entryName d)) exampleDir"
    using d by (simp add: list_all_iff)
  from u m a t d' ns r1 rt r2 r3 r4 show ?thesis by blast
qed

end
